theory Spec2Isabelle
  imports Complex_Main
begin

section \<open>The projection calculator of zenta_dashboard.py\<close>

text \<open>
  The source is one Python function, \<^verbatim>\<open>calculate_projections\<close>, made of eleven list
  comprehensions and a call of \<^verbatim>\<open>pd.DataFrame\<close>. The caller (the Streamlit widgets at
  the bottom of the file) passes Python integers, so the inputs are \<open>int\<close> (unbounded).
  Lines 9 to 17 compute with integers only. Lines 18 and 19 divide two integers with
  \<^verbatim>\<open>/\<close> and multiply the quotient by 100: both results are binary64 floats, the
  quotient correctly rounded or \<^verbatim>\<open>OverflowError\<close> when it is too large for a float,
  the product rounded again and infinite when it is too large. The failures modelled are
  an index out of range, a division by zero, a quotient too large for a float, and the
  refusal of \<^verbatim>\<open>pd.DataFrame\<close> to build a table from columns of different lengths.
  Not modelled: the sign of a floating-point zero (Python's \<^verbatim>\<open>==\<close> does not see it),
  and the distinction between the integer 0 of line 18's else branch and the float 0.0
  (they compare equal, and pandas stores the column as floats).
\<close>

subsection \<open>Errors and the Python primitives used\<close>

datatype error = IndexError | ZeroDivisionError | OverflowError | ValueError

text \<open>Sequencing of two computations that may raise: the first error wins.\<close>

fun and_then :: "error + 'a \<Rightarrow> ('a \<Rightarrow> error + 'b) \<Rightarrow> error + 'b" where
  "and_then (Inl e) f = Inl e"
| "and_then (Inr v) f = f v"

text \<open>\<^verbatim>\<open>xs[i]\<close> for an index produced by \<^verbatim>\<open>range\<close> (never negative).\<close>

definition getitem :: "'a list \<Rightarrow> nat \<Rightarrow> error + 'a" where
  "getitem xs i = (if i < length xs then Inr (xs ! i) else Inl IndexError)"

text \<open>
  \<^verbatim>\<open>[f(i) for i in indices]\<close>: the elements are computed from left to right and the
  first exception ends the comprehension.
\<close>

fun comprehension :: "(nat \<Rightarrow> error + 'a) \<Rightarrow> nat list \<Rightarrow> error + 'a list" where
  "comprehension f [] = Inr []"
| "comprehension f (i # indices) =
     and_then (f i) (\<lambda>v. and_then (comprehension f indices) (\<lambda>vs. Inr (v # vs)))"

subsection \<open>Binary64 floats\<close>

text \<open>
  A Python float is an IEEE 754 binary64 number. A finite one is kept as the rational
  number it denotes; the two infinities are values of their own. No operation of the
  source yields a NaN (an integer quotient is finite or raises, and a finite float times
  100 is finite or infinite), so there is none here.
\<close>

datatype float = Finite rat | PlusInf | MinusInf

text \<open>\<^verbatim>\<open>n.bit_length()\<close> for \<open>n \<ge> 0\<close>: the number of binary digits of \<open>n\<close>.\<close>

function bit_length :: "int \<Rightarrow> int" where
  "bit_length n = (if n \<le> 0 then 0 else 1 + bit_length (n div 2))"
  by pat_completeness auto
termination
  by (relation "measure nat") auto

declare bit_length.simps [simp del]

text \<open>\<open>2\<close> to an integer power, as a rational.\<close>

definition pow2 :: "int \<Rightarrow> rat" where
  "pow2 e = (if 0 \<le> e then of_int (2 ^ nat e) else 1 / of_int (2 ^ nat (- e)))"

text \<open>
  For \<open>x > 0\<close>, the exponent \<open>e\<close> with \<open>2\<^sup>e \<le> x < 2\<^sup>e\<^sup>+\<^sup>1\<close>: from the integer part of \<open>x\<close>
  when \<open>x \<ge> 1\<close>, from the integer part of \<open>1 / x\<close> rounded up otherwise.
\<close>

definition floor_log2 :: "rat \<Rightarrow> int" where
  "floor_log2 x =
     (if 1 \<le> x then bit_length \<lfloor>x\<rfloor> - 1
      else - bit_length (\<lceil>1 / x\<rceil> - 1))"

text \<open>The nearest integer, a tie going to the even one.\<close>

definition round_half_even :: "rat \<Rightarrow> int" where
  "round_half_even y =
     (let f = \<lfloor>y\<rfloor>; r = y - of_int f
      in if r < 1 / 2 then f else if 1 / 2 < r then f + 1
         else if even f then f else f + 1)"

text \<open>
  Rounding to the nearest number with a 53-bit significand, ties to even. A number of
  exponent \<open>e\<close> is a multiple of \<open>2\<^sup>e\<^sup>-\<^sup>5\<^sup>2\<close>; below \<open>2\<^sup>-\<^sup>1\<^sup>0\<^sup>2\<^sup>2\<close> the spacing stays
  \<open>2\<^sup>-\<^sup>1\<^sup>0\<^sup>7\<^sup>4\<close> (subnormal numbers, and 0 below half of that). The exponent is not
  bounded above here: a result of magnitude \<open>2\<^sup>1\<^sup>0\<^sup>2\<^sup>4\<close> or more is what the callers treat
  as too large.
\<close>

definition round_binary64 :: "rat \<Rightarrow> rat" where
  "round_binary64 x =
     (if x = 0 then 0
      else let e = floor_log2 \<bar>x\<bar>; q = max e (- 1022) - 52
           in of_int (round_half_even (x / pow2 q)) * pow2 q)"

text \<open>
  \<^verbatim>\<open>a / b\<close> on two integers: \<^verbatim>\<open>ZeroDivisionError\<close> on a zero divisor; otherwise the
  correctly rounded quotient, or \<^verbatim>\<open>OverflowError\<close> (integer division result too large
  for a float) when that is not a finite float.
\<close>

definition int_truediv :: "int \<Rightarrow> int \<Rightarrow> error + float" where
  "int_truediv a b =
     (if b = 0 then Inl ZeroDivisionError
      else let r = round_binary64 (of_int a / of_int b)
           in if of_int (2 ^ 1024) \<le> \<bar>r\<bar> then Inl OverflowError else Inr (Finite r))"

text \<open>
  \<^verbatim>\<open>q * 100\<close> on a float \<open>q\<close>: the integer 100 becomes the float 100.0 and the product
  is rounded; a product too large is an infinity, not an exception.
\<close>

fun float_mul_100 :: "float \<Rightarrow> float" where
  "float_mul_100 (Finite r) =
     (let p = round_binary64 (r * 100)
      in if of_int (2 ^ 1024) \<le> p then PlusInf
         else if p \<le> - of_int (2 ^ 1024) then MinusInf
         else Finite p)"
| "float_mul_100 PlusInf = PlusInf"
| "float_mul_100 MinusInf = MinusInf"

subsection \<open>The local variables and the returned table\<close>

text \<open>The nine integer lists that lines 9 to 17 bind.\<close>

record locals =
  total_units_in_market :: "int list"
  hardware_revenue :: "int list"
  recurring_revenue :: "int list"
  total_revenue :: "int list"
  cumulative_revenue :: "int list"
  hardware_costs :: "int list"
  recurring_costs :: "int list"
  total_costs :: "int list"
  profit :: "int list"

text \<open>The ten columns of the returned table, in the order of the dictionary of lines 20 to 31.\<close>

record DataFrame =
  Year :: "int list"
  Units_Sold :: "int list"
  Hardware_Revenue :: "int list"
  Recurring_Revenue :: "int list"
  Total_Revenue :: "int list"
  Total_Costs :: "int list"
  Profit :: "int list"
  Profit_Margin :: "float list"
  Cumulative_Revenue :: "int list"
  ROI :: "float list"

text \<open>
  \<^verbatim>\<open>pd.DataFrame(dict)\<close> on a dictionary of lists: pandas builds the table when all
  columns have one length and raises \<^verbatim>\<open>ValueError\<close> (All arrays must be of the same
  length) otherwise.
\<close>

definition pd_DataFrame :: "DataFrame \<Rightarrow> error + DataFrame" where
  "pd_DataFrame d =
     (let n = length (Year d) in
      if length (Units_Sold d) = n \<and> length (Hardware_Revenue d) = n
         \<and> length (Recurring_Revenue d) = n \<and> length (Total_Revenue d) = n
         \<and> length (Total_Costs d) = n \<and> length (Profit d) = n
         \<and> length (Profit_Margin d) = n \<and> length (Cumulative_Revenue d) = n
         \<and> length (ROI d) = n
      then Inr d else Inl ValueError)"

subsection \<open>The function\<close>

text \<open>
  Lines 9 to 17, one binding per source line and in the source's order.
  \<^verbatim>\<open>sum(xs[:i + 1])\<close> is \<open>sum_list (take (i + 1) xs)\<close> (a slice never raises);
  \<^verbatim>\<open>for units in units_sold\<close> is a \<open>map\<close>; \<^verbatim>\<open>for i in range(len(years))\<close> with
  indexing is a \<open>comprehension\<close> over \<open>[0..<length years]\<close>, each \<^verbatim>\<open>xs[i]\<close> a
  \<open>getitem\<close>.
\<close>

definition calculate_projections_lines_9_17 ::
  "int list \<Rightarrow> int list \<Rightarrow> int \<Rightarrow> int \<Rightarrow> int \<Rightarrow> int \<Rightarrow> error + locals" where
  "calculate_projections_lines_9_17 years units_sold hardware_price hardware_cost
       subscription_fee subscription_cost =
    (let total_units_in_market =
           map (\<lambda>i. sum_list (take (i + 1) units_sold)) [0..<length units_sold];
         hardware_revenue = map (\<lambda>units. units * hardware_price) units_sold in
     and_then (comprehension
        (\<lambda>i. and_then (getitem total_units_in_market i) (\<lambda>t. Inr (t * subscription_fee)))
        [0..<length years]) (\<lambda>recurring_revenue.
     and_then (comprehension
        (\<lambda>i. and_then (getitem hardware_revenue i) (\<lambda>h.
             and_then (getitem recurring_revenue i) (\<lambda>r. Inr (h + r))))
        [0..<length years]) (\<lambda>total_revenue.
     let cumulative_revenue =
           map (\<lambda>i. sum_list (take (i + 1) total_revenue)) [0..<length total_revenue];
         hardware_costs = map (\<lambda>units. units * hardware_cost) units_sold in
     and_then (comprehension
        (\<lambda>i. and_then (getitem total_units_in_market i) (\<lambda>t. Inr (t * subscription_cost)))
        [0..<length years]) (\<lambda>recurring_costs.
     and_then (comprehension
        (\<lambda>i. and_then (getitem hardware_costs i) (\<lambda>h.
             and_then (getitem recurring_costs i) (\<lambda>r. Inr (h + r))))
        [0..<length years]) (\<lambda>total_costs.
     and_then (comprehension
        (\<lambda>i. and_then (getitem total_revenue i) (\<lambda>r.
             and_then (getitem total_costs i) (\<lambda>c. Inr (r - c))))
        [0..<length years]) (\<lambda>profit.
     Inr \<lparr>total_units_in_market = total_units_in_market,
          hardware_revenue = hardware_revenue,
          recurring_revenue = recurring_revenue,
          total_revenue = total_revenue,
          cumulative_revenue = cumulative_revenue,
          hardware_costs = hardware_costs,
          recurring_costs = recurring_costs,
          total_costs = total_costs,
          profit = profit\<rparr>))))))"

text \<open>
  The element of line 18,
  \<^verbatim>\<open>profit[i] / total_revenue[i] * 100 if total_revenue[i] > 0 else 0\<close>: the condition is
  evaluated first, and the quotient only when it holds. The arguments are the lists
  \<open>total_revenue\<close> and \<open>profit\<close>.
\<close>

definition profit_margin_at :: "int list \<Rightarrow> int list \<Rightarrow> nat \<Rightarrow> error + float" where
  "profit_margin_at revenues profits i =
     and_then (getitem revenues i) (\<lambda>r.
       if r > 0
       then and_then (getitem profits i) (\<lambda>p.
            and_then (getitem revenues i) (\<lambda>r'.
            and_then (int_truediv p r') (\<lambda>q. Inr (float_mul_100 q))))
       else Inr (Finite 0))"

text \<open>
  The element of line 19,
  \<^verbatim>\<open>(cumulative_revenue[i] - initial_investment) / initial_investment * 100\<close>. The
  first argument is the list \<open>cumulative_revenue\<close>.
\<close>

definition roi_at :: "int list \<Rightarrow> int \<Rightarrow> nat \<Rightarrow> error + float" where
  "roi_at cumulative initial_investment i =
     and_then (getitem cumulative i) (\<lambda>c.
     and_then (int_truediv (c - initial_investment) initial_investment) (\<lambda>q.
     Inr (float_mul_100 q)))"

text \<open>The whole function: lines 9 to 17, line 18, line 19, and the table of lines 20 to 31.\<close>

definition calculate_projections ::
  "int list \<Rightarrow> int list \<Rightarrow> int \<Rightarrow> int \<Rightarrow> int \<Rightarrow> int \<Rightarrow> int \<Rightarrow> error + DataFrame" where
  "calculate_projections years units_sold hardware_price hardware_cost
       subscription_fee subscription_cost initial_investment =
     and_then (calculate_projections_lines_9_17 years units_sold hardware_price
                 hardware_cost subscription_fee subscription_cost) (\<lambda>l.
     and_then (comprehension (profit_margin_at (total_revenue l) (profit l))
                 [0..<length years]) (\<lambda>profit_margin.
     and_then (comprehension (roi_at (cumulative_revenue l) initial_investment)
                 [0..<length years]) (\<lambda>roi.
     pd_DataFrame \<lparr>Year = years,
                   Units_Sold = units_sold,
                   Hardware_Revenue = hardware_revenue l,
                   Recurring_Revenue = recurring_revenue l,
                   Total_Revenue = total_revenue l,
                   Total_Costs = total_costs l,
                   Profit = profit l,
                   Profit_Margin = profit_margin,
                   Cumulative_Revenue = cumulative_revenue l,
                   ROI = roi\<rparr>)))"

subsection \<open>Conditions on the inputs, and reading a row\<close>

text \<open>
  The inputs that the specification calls valid: one entry of \<open>units_sold\<close> per year, at
  least one year, no negative number of units, no negative price, cost or fee, and a
  positive initial investment. (The dashboard's own widgets also allow an initial
  investment of 0 and offer at most ten years.)
\<close>

definition valid_input :: "int list \<Rightarrow> int list \<Rightarrow> int \<Rightarrow> int \<Rightarrow> int \<Rightarrow> int \<Rightarrow> int \<Rightarrow> bool" where
  "valid_input years units_sold hardware_price hardware_cost
       subscription_fee subscription_cost initial_investment \<longleftrightarrow>
     length years = length units_sold \<and> 1 \<le> length years \<and> list_all (\<lambda>u. 0 \<le> u) units_sold
     \<and> 0 \<le> hardware_price \<and> 0 \<le> hardware_cost \<and> 0 \<le> subscription_fee
     \<and> 0 \<le> subscription_cost \<and> 0 < initial_investment"

text \<open>
  Inputs of bounded magnitude: at most \<open>2\<^sup>5\<^sup>3\<close> years and no number larger than \<open>2\<^sup>5\<^sup>3\<close>
  in absolute value. The dashboard stays far inside (ten years at most, and a Streamlit
  number input holds no integer beyond \<open>2\<^sup>5\<^sup>3 - 1\<close>). Within these bounds no quotient of
  lines 18 and 19 is too large for a float.
\<close>

definition bounded_input :: "int list \<Rightarrow> int list \<Rightarrow> int \<Rightarrow> int \<Rightarrow> int \<Rightarrow> int \<Rightarrow> int \<Rightarrow> bool" where
  "bounded_input years units_sold hardware_price hardware_cost
       subscription_fee subscription_cost initial_investment \<longleftrightarrow>
     int (length years) \<le> 2 ^ 53 \<and> list_all (\<lambda>u. \<bar>u\<bar> \<le> 2 ^ 53) units_sold
     \<and> \<bar>hardware_price\<bar> \<le> 2 ^ 53 \<and> \<bar>hardware_cost\<bar> \<le> 2 ^ 53
     \<and> \<bar>subscription_fee\<bar> \<le> 2 ^ 53 \<and> \<bar>subscription_cost\<bar> \<le> 2 ^ 53
     \<and> \<bar>initial_investment\<bar> \<le> 2 ^ 53"

text \<open>Row \<open>i\<close> of a table (all ten fields), read only for \<open>i\<close> below the number of rows.\<close>

definition row ::
  "DataFrame \<Rightarrow> nat \<Rightarrow> int \<times> int \<times> int \<times> int \<times> int \<times> int \<times> int \<times> float \<times> int \<times> float" where
  "row df i = (Year df ! i, Units_Sold df ! i, Hardware_Revenue df ! i,
     Recurring_Revenue df ! i, Total_Revenue df ! i, Total_Costs df ! i, Profit df ! i,
     Profit_Margin df ! i, Cumulative_Revenue df ! i, ROI df ! i)"

text \<open>The lengths of the ten columns.\<close>

definition column_lengths :: "DataFrame \<Rightarrow> nat list" where
  "column_lengths df = [length (Year df), length (Units_Sold df),
     length (Hardware_Revenue df), length (Recurring_Revenue df), length (Total_Revenue df),
     length (Total_Costs df), length (Profit df), length (Profit_Margin df),
     length (Cumulative_Revenue df), length (ROI df)]"

subsection \<open>Facts about the primitives\<close>

lemma and_then_Inr_iff: "and_then x f = Inr y \<longleftrightarrow> (\<exists>v. x = Inr v \<and> f v = Inr y)"
  by (cases x) simp_all

lemma getitem_Inr_iff: "getitem xs i = Inr v \<longleftrightarrow> i < length xs \<and> v = xs ! i"
  by (auto simp: getitem_def)

lemma comprehension_Inr_D:
  "comprehension f indices = Inr vs \<Longrightarrow>
     length vs = length indices \<and> (\<forall>k<length indices. f (indices ! k) = Inr (vs ! k))"
proof (induction indices arbitrary: vs)
  case Nil
  then show ?case by simp
next
  case (Cons i indices)
  from Cons.prems obtain v ws where v: "f i = Inr v"
    and ws: "comprehension f indices = Inr ws" and vs: "vs = v # ws"
    by (auto simp: and_then_Inr_iff)
  from Cons.IH [OF ws] have "length ws = length indices"
    and "\<forall>k<length indices. f (indices ! k) = Inr (ws ! k)" by simp_all
  with v vs show ?case by (auto simp: nth_Cons split: nat.splits)
qed

lemma comprehension_range_D:
  assumes "comprehension f [0..<n] = Inr vs"
  shows "length vs = n" and "\<And>i. i < n \<Longrightarrow> f i = Inr (vs ! i)"
  using comprehension_Inr_D [OF assms] by simp_all

lemma comprehension_total:
  "(\<And>i. i \<in> set indices \<Longrightarrow> \<exists>v. f i = Inr v) \<Longrightarrow> \<exists>vs. comprehension f indices = Inr vs"
proof (induction indices)
  case Nil
  then show ?case by simp
next
  case (Cons i indices)
  from Cons.prems obtain v where "f i = Inr v" by auto
  moreover from Cons obtain ws where "comprehension f indices = Inr ws" by auto
  ultimately show ?case by simp
qed

lemma comprehension_raises:
  "(\<And>i. i \<in> set done \<Longrightarrow> \<exists>v. f i = Inr v) \<Longrightarrow> f k = Inl e \<Longrightarrow>
     comprehension f (done @ k # rest) = Inl e"
proof (induction "done")
  case Nil
  then show ?case by simp
next
  case (Cons i "done")
  from Cons.prems obtain v where "f i = Inr v" by auto
  moreover from Cons have "comprehension f (done @ k # rest) = Inl e" by auto
  ultimately show ?case by simp
qed

lemma comprehension_range_raises:
  assumes "k < n" and "\<And>i. i < k \<Longrightarrow> \<exists>v. f i = Inr v" and "f k = Inl e"
  shows "comprehension f [0..<n] = Inl e"
proof -
  from \<open>k < n\<close> have "[0..<n] = [0..<k] @ [k..<n]"
    using upt_add_eq_append [of 0 k "n - k"] by simp
  with \<open>k < n\<close> have "[0..<n] = [0..<k] @ k # [Suc k..<n]"
    by (simp add: upt_conv_Cons)
  with comprehension_raises [of "[0..<k]" f k e "[Suc k..<n]"] assms show ?thesis by simp
qed

subsection \<open>Facts about the floats\<close>

lemma bit_length_nonneg: "0 \<le> bit_length n"
  by (induction n rule: bit_length.induct) (simp add: bit_length.simps)

lemma bit_length_le:
  "n < 2 ^ k \<Longrightarrow> bit_length n \<le> int k"
proof (induction k arbitrary: n)
  case 0
  then show ?case by (simp add: bit_length.simps)
next
  case (Suc k)
  show ?case
  proof (cases "n \<le> 0")
    case True
    then show ?thesis by (simp add: bit_length.simps)
  next
    case False
    from Suc.prems have "n div 2 < 2 ^ k" by simp
    then have "bit_length (n div 2) \<le> int k" by (rule Suc.IH)
    with False show ?thesis by (subst bit_length.simps) simp
  qed
qed

lemma pow2_pos: "0 < pow2 q"
  by (simp add: pow2_def)

lemma pow2_le:
  assumes "q \<le> int k"
  shows "pow2 q \<le> of_int (2 ^ k)"
proof (cases "0 \<le> q")
  case True
  with assms have "nat q \<le> k" by simp
  then have "(2::int) ^ nat q \<le> 2 ^ k" by (rule power_increasing) simp
  then have "(of_int (2 ^ nat q) :: rat) \<le> of_int (2 ^ k)" by (simp only: of_int_le_iff)
  with True show ?thesis by (simp add: pow2_def)
next
  case False
  have "(1::rat) \<le> 2 ^ nat (- q)" by (rule one_le_power) simp
  then have "1 / (2::rat) ^ nat (- q) \<le> 1" by simp
  moreover have "(1::rat) \<le> 2 ^ k" by (rule one_le_power) simp
  ultimately have "1 / (2::rat) ^ nat (- q) \<le> 2 ^ k" by (rule order_trans)
  with False show ?thesis by (simp add: pow2_def)
qed

lemma round_half_even_near: "\<bar>of_int (round_half_even y) - y\<bar> \<le> 1 / 2"
proof -
  have "of_int \<lfloor>y\<rfloor> \<le> y" "y < of_int \<lfloor>y\<rfloor> + 1" by linarith+
  then show ?thesis
    by (auto simp: round_half_even_def Let_def abs_le_iff)
qed

lemma floor_log2_le:
  assumes "0 < x" and "x < of_int (2 ^ k)"
  shows "floor_log2 x < int k"
proof (cases "1 \<le> x")
  case True
  from assms(2) have "\<lfloor>x\<rfloor> < 2 ^ k" by (simp add: floor_less_iff)
  then have "bit_length \<lfloor>x\<rfloor> \<le> int k" by (rule bit_length_le)
  with True show ?thesis by (simp add: floor_log2_def)
next
  case False
  have "0 < k \<or> k = 0" by auto
  then show ?thesis
  proof
    assume "0 < k"
    with False bit_length_nonneg [of "\<lceil>1 / x\<rceil> - 1"] show ?thesis
      by (simp add: floor_log2_def)
  next
    assume "k = 0"
    with assms False have "1 \<le> 1 / x" by simp
    from \<open>k = 0\<close> assms(2) have x1: "x < 1" by simp
    with assms(1) have "1 < 1 / x" by simp
    then have "1 < \<lceil>1 / x\<rceil>" by (simp add: less_ceiling_iff)
    then have "0 < \<lceil>1 / x\<rceil> - 1" by simp
    then have "0 < bit_length (\<lceil>1 / x\<rceil> - 1)"
      using bit_length_nonneg [of "(\<lceil>1 / x\<rceil> - 1) div 2"]
      by (subst bit_length.simps) simp
    with False \<open>k = 0\<close> show ?thesis by (simp add: floor_log2_def)
  qed
qed

lemma round_binary64_near:
  assumes "\<bar>x\<bar> < of_int (2 ^ k)" and "1022 \<le> k"
  shows "\<bar>round_binary64 x - x\<bar> \<le> of_int (2 ^ (k - 53))"
proof (cases "x = 0")
  case True
  then show ?thesis by (simp add: round_binary64_def)
next
  case False
  define q where "q = max (floor_log2 \<bar>x\<bar>) (- 1022) - 52"
  from False assms(1) have "floor_log2 \<bar>x\<bar> < int k" by (intro floor_log2_le) simp_all
  with assms(2) have "q \<le> int (k - 52) - 1" by (simp add: q_def)
  also from assms(2) have "\<dots> = int (k - 53)" by simp
  finally have "pow2 q \<le> of_int (2 ^ (k - 53))" by (rule pow2_le)
  have r: "round_binary64 x = of_int (round_half_even (x / pow2 q)) * pow2 q"
    using False by (simp add: round_binary64_def Let_def q_def)
  have "round_binary64 x - x = (of_int (round_half_even (x / pow2 q)) - x / pow2 q) * pow2 q"
    using pow2_pos [of q] by (simp add: r algebra_simps)
  then have "\<bar>round_binary64 x - x\<bar> =
      \<bar>of_int (round_half_even (x / pow2 q)) - x / pow2 q\<bar> * pow2 q"
    using pow2_pos [of q] by (simp add: abs_mult)
  also have "\<dots> \<le> 1 / 2 * pow2 q"
    using round_half_even_near [of "x / pow2 q"] pow2_pos [of q]
    by (intro mult_right_mono) simp_all
  also have "\<dots> \<le> pow2 q" using pow2_pos [of q] by simp
  also note \<open>pow2 q \<le> of_int (2 ^ (k - 53))\<close>
  finally show ?thesis .
qed

lemma round_binary64_finite:
  assumes "\<bar>x\<bar> < of_int (2 ^ 1023)"
  shows "\<bar>round_binary64 x\<bar> < of_int (2 ^ 1024)"
proof -
  from round_binary64_near [OF assms] have "\<bar>round_binary64 x - x\<bar> \<le> of_int (2 ^ 970)"
    by simp
  then have "\<bar>round_binary64 x\<bar> \<le> \<bar>x\<bar> + of_int (2 ^ 970)" by linarith
  also from assms have "\<dots> < of_int (2 ^ 1023) + of_int (2 ^ 970)" by simp
  also have "\<dots> \<le> (of_int (2 ^ 1024) :: rat)"
  proof -
    have "(2::int) ^ 970 \<le> 2 ^ 1023" by (rule power_increasing) simp_all
    then have "(2::int) ^ 1023 + 2 ^ 970 \<le> 2 ^ 1023 + 2 ^ 1023" by simp
    also have "\<dots> = 2 ^ 1024" by simp
    finally have "(of_int ((2::int) ^ 1023 + 2 ^ 970) :: rat) \<le> of_int (2 ^ 1024)"
      by (simp only: of_int_le_iff)
    then show ?thesis by (simp only: of_int_add)
  qed
  finally show ?thesis .
qed

lemma int_truediv_finite:
  assumes "b \<noteq> 0" and "\<bar>a\<bar> < 2 ^ 1023"
  shows "int_truediv a b = Inr (Finite (round_binary64 (of_int a / of_int b)))"
proof -
  from assms(1) have "1 \<le> \<bar>b\<bar>" by simp
  then have "(1::rat) \<le> \<bar>of_int b\<bar>" by (metis of_int_1 of_int_abs of_int_le_iff)
  then have "\<bar>of_int a :: rat\<bar> / \<bar>of_int b\<bar> \<le> \<bar>of_int a\<bar> / 1"
    by (intro divide_left_mono) simp_all
  then have "\<bar>of_int a / of_int b :: rat\<bar> \<le> \<bar>of_int a\<bar>"
    by (simp only: abs_divide div_by_1)
  also from assms(2) have "\<dots> < (of_int (2 ^ 1023) :: rat)"
    by (metis of_int_abs of_int_less_iff)
  finally have "\<bar>round_binary64 (of_int a / of_int b)\<bar> < of_int (2 ^ 1024)"
    by (rule round_binary64_finite)
  with assms(1) show ?thesis by (simp add: int_truediv_def Let_def)
qed

lemma int_truediv_Inr_D: "int_truediv a b = Inr q \<Longrightarrow> b \<noteq> 0"
  by (auto simp: int_truediv_def)

lemma int_truediv_zero: "int_truediv a 0 = Inl ZeroDivisionError"
  by (simp add: int_truediv_def)

lemma int_truediv_cases:
  "b \<noteq> 0 \<Longrightarrow> int_truediv a b = Inl OverflowError \<or> (\<exists>q. int_truediv a b = Inr q)"
  by (simp add: int_truediv_def Let_def)

subsection \<open>Lines 9 to 17: what they bind, and when they raise\<close>

lemma lines_D:
  assumes "calculate_projections_lines_9_17 years units_sold hardware_price hardware_cost
             subscription_fee subscription_cost = Inr l"
  shows "total_units_in_market l =
           map (\<lambda>i. sum_list (take (i + 1) units_sold)) [0..<length units_sold]"
    and "hardware_revenue l = map (\<lambda>units. units * hardware_price) units_sold"
    and "hardware_costs l = map (\<lambda>units. units * hardware_cost) units_sold"
    and "cumulative_revenue l =
           map (\<lambda>i. sum_list (take (i + 1) (total_revenue l))) [0..<length (total_revenue l)]"
    and "length (recurring_revenue l) = length years"
    and "length (total_revenue l) = length years"
    and "length (recurring_costs l) = length years"
    and "length (total_costs l) = length years"
    and "length (profit l) = length years"
    and "length years \<le> length units_sold"
    and "\<And>i. i < length years \<Longrightarrow>
           recurring_revenue l ! i = total_units_in_market l ! i * subscription_fee"
    and "\<And>i. i < length years \<Longrightarrow>
           total_revenue l ! i = hardware_revenue l ! i + recurring_revenue l ! i"
    and "\<And>i. i < length years \<Longrightarrow>
           recurring_costs l ! i = total_units_in_market l ! i * subscription_cost"
    and "\<And>i. i < length years \<Longrightarrow>
           total_costs l ! i = hardware_costs l ! i + recurring_costs l ! i"
    and "\<And>i. i < length years \<Longrightarrow> profit l ! i = total_revenue l ! i - total_costs l ! i"
proof -
  define tuim where "tuim = map (\<lambda>i. sum_list (take (i + 1) units_sold)) [0..<length units_sold]"
  define hr where "hr = map (\<lambda>units. units * hardware_price) units_sold"
  define hcs where "hcs = map (\<lambda>units. units * hardware_cost) units_sold"
  from assms obtain rr tr rc tc p where
    rr: "comprehension (\<lambda>i. and_then (getitem tuim i) (\<lambda>t. Inr (t * subscription_fee)))
           [0..<length years] = Inr rr" and
    tr: "comprehension (\<lambda>i. and_then (getitem hr i) (\<lambda>h.
             and_then (getitem rr i) (\<lambda>r. Inr (h + r)))) [0..<length years] = Inr tr" and
    rc: "comprehension (\<lambda>i. and_then (getitem tuim i) (\<lambda>t. Inr (t * subscription_cost)))
           [0..<length years] = Inr rc" and
    tc: "comprehension (\<lambda>i. and_then (getitem hcs i) (\<lambda>h.
             and_then (getitem rc i) (\<lambda>r. Inr (h + r)))) [0..<length years] = Inr tc" and
    p: "comprehension (\<lambda>i. and_then (getitem tr i) (\<lambda>r.
             and_then (getitem tc i) (\<lambda>c. Inr (r - c)))) [0..<length years] = Inr p" and
    l: "l = \<lparr>total_units_in_market = tuim, hardware_revenue = hr, recurring_revenue = rr,
             total_revenue = tr,
             cumulative_revenue = map (\<lambda>i. sum_list (take (i + 1) tr)) [0..<length tr],
             hardware_costs = hcs, recurring_costs = rc, total_costs = tc, profit = p\<rparr>"
    unfolding calculate_projections_lines_9_17_def Let_def and_then_Inr_iff
      tuim_def hr_def hcs_def
    by blast
  show "total_units_in_market l =
           map (\<lambda>i. sum_list (take (i + 1) units_sold)) [0..<length units_sold]"
    by (simp add: l tuim_def)
  show "hardware_revenue l = map (\<lambda>units. units * hardware_price) units_sold"
    by (simp add: l hr_def)
  show "hardware_costs l = map (\<lambda>units. units * hardware_cost) units_sold"
    by (simp add: l hcs_def)
  show "cumulative_revenue l =
           map (\<lambda>i. sum_list (take (i + 1) (total_revenue l))) [0..<length (total_revenue l)]"
    by (simp add: l)
  show "length (recurring_revenue l) = length years"
    using comprehension_range_D(1) [OF rr] by (simp add: l)
  show "length (total_revenue l) = length years"
    using comprehension_range_D(1) [OF tr] by (simp add: l)
  show "length (recurring_costs l) = length years"
    using comprehension_range_D(1) [OF rc] by (simp add: l)
  show "length (total_costs l) = length years"
    using comprehension_range_D(1) [OF tc] by (simp add: l)
  show "length (profit l) = length years"
    using comprehension_range_D(1) [OF p] by (simp add: l)
  show "length years \<le> length units_sold"
  proof (rule ccontr)
    assume "\<not> length years \<le> length units_sold"
    then have "length units_sold < length years" by simp
    from comprehension_range_D(2) [OF rr this] show False
      by (simp add: and_then_Inr_iff getitem_Inr_iff tuim_def)
  qed
  show "recurring_revenue l ! i = total_units_in_market l ! i * subscription_fee"
    if "i < length years" for i
    using comprehension_range_D(2) [OF rr that]
    by (auto simp: l and_then_Inr_iff getitem_Inr_iff)
  show "total_revenue l ! i = hardware_revenue l ! i + recurring_revenue l ! i"
    if "i < length years" for i
    using comprehension_range_D(2) [OF tr that]
    by (auto simp: l and_then_Inr_iff getitem_Inr_iff)
  show "recurring_costs l ! i = total_units_in_market l ! i * subscription_cost"
    if "i < length years" for i
    using comprehension_range_D(2) [OF rc that]
    by (auto simp: l and_then_Inr_iff getitem_Inr_iff)
  show "total_costs l ! i = hardware_costs l ! i + recurring_costs l ! i"
    if "i < length years" for i
    using comprehension_range_D(2) [OF tc that]
    by (auto simp: l and_then_Inr_iff getitem_Inr_iff)
  show "profit l ! i = total_revenue l ! i - total_costs l ! i"
    if "i < length years" for i
    using comprehension_range_D(2) [OF p that]
    by (auto simp: l and_then_Inr_iff getitem_Inr_iff)
qed

lemma lines_nth:
  assumes "calculate_projections_lines_9_17 years units_sold hardware_price hardware_cost
             subscription_fee subscription_cost = Inr l"
    and "i < length years"
  shows "i < length units_sold"
    and "total_units_in_market l ! i = sum_list (take (i + 1) units_sold)"
    and "hardware_revenue l ! i = units_sold ! i * hardware_price"
    and "hardware_costs l ! i = units_sold ! i * hardware_cost"
    and "cumulative_revenue l ! i = sum_list (take (i + 1) (total_revenue l))"
proof -
  from lines_D(10) [OF assms(1)] assms(2) show i: "i < length units_sold" by simp
  from i show "total_units_in_market l ! i = sum_list (take (i + 1) units_sold)"
    by (simp add: lines_D(1) [OF assms(1)])
  from i show "hardware_revenue l ! i = units_sold ! i * hardware_price"
    by (simp add: lines_D(2) [OF assms(1)])
  from i show "hardware_costs l ! i = units_sold ! i * hardware_cost"
    by (simp add: lines_D(3) [OF assms(1)])
  from assms(2) have "i < length (total_revenue l)"
    by (simp add: lines_D(6) [OF assms(1)])
  then have "map (\<lambda>i. sum_list (take (i + 1) (total_revenue l))) [0..<length (total_revenue l)] ! i
      = sum_list (take (i + 1) (total_revenue l))"
    by simp
  then show "cumulative_revenue l ! i = sum_list (take (i + 1) (total_revenue l))"
    using lines_D(4) [OF assms(1)] by simp
qed

lemma lines_total:
  assumes le: "length years \<le> length units_sold"
  shows "\<exists>l. calculate_projections_lines_9_17 years units_sold hardware_price hardware_cost
             subscription_fee subscription_cost = Inr l"
proof -
  define tuim where "tuim = map (\<lambda>i. sum_list (take (i + 1) units_sold)) [0..<length units_sold]"
  define hr where "hr = map (\<lambda>units. units * hardware_price) units_sold"
  define hcs where "hcs = map (\<lambda>units. units * hardware_cost) units_sold"
  have len: "length tuim = length units_sold" "length hr = length units_sold"
    "length hcs = length units_sold"
    by (simp_all add: tuim_def hr_def hcs_def)
  obtain rr where rr:
    "comprehension (\<lambda>i. and_then (getitem tuim i) (\<lambda>t. Inr (t * subscription_fee)))
       [0..<length years] = Inr rr"
    using comprehension_total
      [of "[0..<length years]" "\<lambda>i. and_then (getitem tuim i) (\<lambda>t. Inr (t * subscription_fee))"]
      le len by (auto simp: getitem_def)
  have len_rr: "length rr = length years" using comprehension_range_D(1) [OF rr] .
  obtain tr where tr:
    "comprehension (\<lambda>i. and_then (getitem hr i) (\<lambda>h.
             and_then (getitem rr i) (\<lambda>r. Inr (h + r)))) [0..<length years] = Inr tr"
    using comprehension_total
      [of "[0..<length years]" "\<lambda>i. and_then (getitem hr i) (\<lambda>h.
             and_then (getitem rr i) (\<lambda>r. Inr (h + r)))"]
      le len len_rr by (auto simp: getitem_def)
  have len_tr: "length tr = length years" using comprehension_range_D(1) [OF tr] .
  obtain rc where rc:
    "comprehension (\<lambda>i. and_then (getitem tuim i) (\<lambda>t. Inr (t * subscription_cost)))
       [0..<length years] = Inr rc"
    using comprehension_total
      [of "[0..<length years]" "\<lambda>i. and_then (getitem tuim i) (\<lambda>t. Inr (t * subscription_cost))"]
      le len by (auto simp: getitem_def)
  have len_rc: "length rc = length years" using comprehension_range_D(1) [OF rc] .
  obtain tc where tc:
    "comprehension (\<lambda>i. and_then (getitem hcs i) (\<lambda>h.
             and_then (getitem rc i) (\<lambda>r. Inr (h + r)))) [0..<length years] = Inr tc"
    using comprehension_total
      [of "[0..<length years]" "\<lambda>i. and_then (getitem hcs i) (\<lambda>h.
             and_then (getitem rc i) (\<lambda>r. Inr (h + r)))"]
      le len len_rc by (auto simp: getitem_def)
  have len_tc: "length tc = length years" using comprehension_range_D(1) [OF tc] .
  obtain p where p:
    "comprehension (\<lambda>i. and_then (getitem tr i) (\<lambda>r.
             and_then (getitem tc i) (\<lambda>c. Inr (r - c)))) [0..<length years] = Inr p"
    using comprehension_total
      [of "[0..<length years]" "\<lambda>i. and_then (getitem tr i) (\<lambda>r.
             and_then (getitem tc i) (\<lambda>c. Inr (r - c)))"]
      len_tr len_tc by (auto simp: getitem_def)
  show ?thesis
    unfolding calculate_projections_lines_9_17_def Let_def
    by (simp only: rr [unfolded tuim_def] tr [unfolded hr_def] rc [unfolded tuim_def]
          tc [unfolded hcs_def] p and_then.simps) blast
qed

lemma lines_IndexError:
  assumes "length units_sold < length years"
  shows "calculate_projections_lines_9_17 years units_sold hardware_price hardware_cost
           subscription_fee subscription_cost = Inl IndexError"
proof -
  have "comprehension (\<lambda>i. and_then
          (getitem (map (\<lambda>i. sum_list (take (i + 1) units_sold)) [0..<length units_sold]) i)
          (\<lambda>t. Inr (t * subscription_fee))) [0..<length years] = Inl IndexError"
    by (rule comprehension_range_raises [OF assms]) (simp_all add: getitem_def)
  then show ?thesis
    by (simp add: calculate_projections_lines_9_17_def Let_def)
qed

subsection \<open>Lines 18 and 19: one element\<close>

lemma comprehension_Inl_D:
  "comprehension f indices = Inl e \<Longrightarrow> \<exists>i\<in>set indices. f i = Inl e"
proof (induction indices)
  case Nil
  then show ?case by simp
next
  case (Cons i indices)
  show ?case
  proof (cases "f i")
    case (Inl e')
    with Cons.prems show ?thesis by simp
  next
    case (Inr v)
    show ?thesis
    proof (cases "comprehension f indices")
      case (Inl e')
      with Inr Cons.prems have "e' = e" by simp
      with Inl Cons.IH show ?thesis by simp
    next
      case (Inr vs)
      with \<open>f i = Inr v\<close> Cons.prems show ?thesis by simp
    qed
  qed
qed

lemma comprehension_range_total:
  assumes "\<And>i. i < n \<Longrightarrow> \<exists>v. f i = Inr v"
  shows "\<exists>vs. comprehension f [0..<n] = Inr vs"
  by (rule comprehension_total) (simp add: assms)

lemma profit_margin_at_D:
  assumes "profit_margin_at revenues profits i = Inr v"
  shows "i < length revenues"
    and "revenues ! i \<le> 0 \<Longrightarrow> v = Finite 0"
    and "0 < revenues ! i \<Longrightarrow>
           \<exists>q. int_truediv (profits ! i) (revenues ! i) = Inr q \<and> v = float_mul_100 q"
  using assms
  by (auto simp: profit_margin_at_def and_then_Inr_iff getitem_Inr_iff split: if_splits)

lemma profit_margin_at_guard:
  "i < length revenues \<Longrightarrow> revenues ! i \<le> 0 \<Longrightarrow>
     profit_margin_at revenues profits i = Inr (Finite 0)"
  by (simp add: profit_margin_at_def getitem_def)

lemma profit_margin_at_cases:
  assumes "i < length revenues" and "i < length profits"
  shows "profit_margin_at revenues profits i = Inl OverflowError
       \<or> (\<exists>v. profit_margin_at revenues profits i = Inr v)"
proof (cases "0 < revenues ! i")
  case True
  then have "revenues ! i \<noteq> 0" by simp
  from int_truediv_cases [OF this, of "profits ! i"] True assms show ?thesis
    by (auto simp: profit_margin_at_def getitem_def)
next
  case False
  with assms show ?thesis by (simp add: profit_margin_at_def getitem_def)
qed

lemma profit_margin_at_total:
  assumes "i < length revenues" and "i < length profits" and "\<bar>profits ! i\<bar> < 2 ^ 1023"
  shows "\<exists>v. profit_margin_at revenues profits i = Inr v"
proof (cases "0 < revenues ! i")
  case True
  then have "revenues ! i \<noteq> 0" by simp
  from int_truediv_finite [OF this assms(3)] True assms(1,2) show ?thesis
    by (simp add: profit_margin_at_def getitem_def)
next
  case False
  with assms show ?thesis by (simp add: profit_margin_at_def getitem_def)
qed

lemma roi_at_D:
  assumes "roi_at cumulative initial_investment i = Inr v"
  shows "i < length cumulative" and "initial_investment \<noteq> 0"
    and "\<exists>q. int_truediv (cumulative ! i - initial_investment) initial_investment = Inr q
           \<and> v = float_mul_100 q"
  using assms
  by (auto simp: roi_at_def and_then_Inr_iff getitem_Inr_iff dest: int_truediv_Inr_D)

lemma roi_at_zero:
  "i < length cumulative \<Longrightarrow> roi_at cumulative 0 i = Inl ZeroDivisionError"
  by (simp add: roi_at_def getitem_def int_truediv_zero)

lemma roi_at_cases:
  assumes "i < length cumulative" and "initial_investment \<noteq> 0"
  shows "roi_at cumulative initial_investment i = Inl OverflowError
       \<or> (\<exists>v. roi_at cumulative initial_investment i = Inr v)"
  using int_truediv_cases [OF assms(2), of "cumulative ! i - initial_investment"] assms(1)
  by (auto simp: roi_at_def getitem_def)

lemma roi_at_total:
  assumes "i < length cumulative" and "initial_investment \<noteq> 0"
    and "\<bar>cumulative ! i - initial_investment\<bar> < 2 ^ 1023"
  shows "\<exists>v. roi_at cumulative initial_investment i = Inr v"
  using int_truediv_finite [OF assms(2,3)] assms(1)
  by (simp add: roi_at_def getitem_def)

subsection \<open>The whole function\<close>

lemma calculate_projections_lines:
  assumes "calculate_projections years units_sold hardware_price hardware_cost
             subscription_fee subscription_cost initial_investment = Inr df"
  shows "\<exists>l. calculate_projections_lines_9_17 years units_sold hardware_price hardware_cost
             subscription_fee subscription_cost = Inr l"
  using assms unfolding calculate_projections_def and_then_Inr_iff by blast

lemma calculate_projections_D:
  assumes "calculate_projections years units_sold hardware_price hardware_cost
             subscription_fee subscription_cost initial_investment = Inr df"
    and l: "calculate_projections_lines_9_17 years units_sold hardware_price hardware_cost
             subscription_fee subscription_cost = Inr l"
  shows "length years = length units_sold"
    and "Year df = years" and "Units_Sold df = units_sold"
    and "Hardware_Revenue df = hardware_revenue l"
    and "Recurring_Revenue df = recurring_revenue l"
    and "Total_Revenue df = total_revenue l" and "Total_Costs df = total_costs l"
    and "Profit df = profit l" and "Cumulative_Revenue df = cumulative_revenue l"
    and "length (Profit_Margin df) = length years" and "length (ROI df) = length years"
    and "\<And>i. i < length years \<Longrightarrow>
          profit_margin_at (total_revenue l) (profit l) i = Inr (Profit_Margin df ! i)"
    and "\<And>i. i < length years \<Longrightarrow>
          roi_at (cumulative_revenue l) initial_investment i = Inr (ROI df ! i)"
proof -
  from assms(1) obtain pm r where
    pm: "comprehension (profit_margin_at (total_revenue l) (profit l))
               [0..<length years] = Inr pm"
    and r: "comprehension (roi_at (cumulative_revenue l) initial_investment)
               [0..<length years] = Inr r"
    and pd: "pd_DataFrame \<lparr>Year = years, Units_Sold = units_sold,
               Hardware_Revenue = hardware_revenue l,
               Recurring_Revenue = recurring_revenue l,
               Total_Revenue = total_revenue l,
               Total_Costs = total_costs l,
               Profit = profit l,
               Profit_Margin = pm,
               Cumulative_Revenue = cumulative_revenue l,
               ROI = r\<rparr> = Inr df"
    unfolding calculate_projections_def l and_then.simps and_then_Inr_iff by blast
  from pd show "length years = length units_sold"
    by (simp add: pd_DataFrame_def Let_def split: if_splits)
  from pd have df: "df = \<lparr>Year = years, Units_Sold = units_sold,
               Hardware_Revenue = hardware_revenue l,
               Recurring_Revenue = recurring_revenue l,
               Total_Revenue = total_revenue l,
               Total_Costs = total_costs l,
               Profit = profit l,
               Profit_Margin = pm,
               Cumulative_Revenue = cumulative_revenue l,
               ROI = r\<rparr>"
    by (simp add: pd_DataFrame_def Let_def split: if_splits)
  show "Year df = years" "Units_Sold df = units_sold"
    "Hardware_Revenue df = hardware_revenue l" "Recurring_Revenue df = recurring_revenue l"
    "Total_Revenue df = total_revenue l" "Total_Costs df = total_costs l"
    "Profit df = profit l" "Cumulative_Revenue df = cumulative_revenue l"
    by (simp_all add: df)
  show "length (Profit_Margin df) = length years" "length (ROI df) = length years"
    using comprehension_range_D(1) [OF pm] comprehension_range_D(1) [OF r] by (simp_all add: df)
  show "profit_margin_at (total_revenue l) (profit l) i = Inr (Profit_Margin df ! i)"
    if "i < length years" for i
    using comprehension_range_D(2) [OF pm that] by (simp add: df)
  show "roi_at (cumulative_revenue l) initial_investment i = Inr (ROI df ! i)"
    if "i < length years" for i
    using comprehension_range_D(2) [OF r that] by (simp add: df)
qed

lemma calculate_projections_returns:
  assumes l: "calculate_projections_lines_9_17 years units_sold hardware_price hardware_cost
             subscription_fee subscription_cost = Inr l"
    and len: "length years = length units_sold"
    and inv: "initial_investment \<noteq> 0 \<or> years = []"
    and small: "\<And>i. i < length years \<Longrightarrow>
           \<bar>profit l ! i\<bar> < 2 ^ 1023
           \<and> \<bar>cumulative_revenue l ! i - initial_investment\<bar> < 2 ^ 1023"
  shows "\<exists>df. calculate_projections years units_sold hardware_price hardware_cost
             subscription_fee subscription_cost initial_investment = Inr df"
proof -
  note D = lines_D [OF l]
  have len_cr: "length (cumulative_revenue l) = length years"
    using D(4) D(6) by simp
  have "\<exists>pm. comprehension (profit_margin_at (total_revenue l) (profit l))
               [0..<length years] = Inr pm"
  proof (rule comprehension_range_total)
    fix i assume "i < length years"
    with small [of i] show "\<exists>v. profit_margin_at (total_revenue l) (profit l) i = Inr v"
      by (intro profit_margin_at_total) (simp_all add: D(6) D(9))
  qed
  then obtain pm where pm: "comprehension (profit_margin_at (total_revenue l) (profit l))
               [0..<length years] = Inr pm" ..
  have "\<exists>r. comprehension (roi_at (cumulative_revenue l) initial_investment)
               [0..<length years] = Inr r"
  proof (rule comprehension_range_total)
    fix i assume i: "i < length years"
    with inv have "initial_investment \<noteq> 0" by auto
    with small [OF i] i show "\<exists>v. roi_at (cumulative_revenue l) initial_investment i = Inr v"
      by (intro roi_at_total) (simp_all add: len_cr)
  qed
  then obtain r where r: "comprehension (roi_at (cumulative_revenue l) initial_investment)
               [0..<length years] = Inr r" ..
  have eq: "calculate_projections years units_sold hardware_price hardware_cost
             subscription_fee subscription_cost initial_investment =
      pd_DataFrame \<lparr>Year = years, Units_Sold = units_sold,
               Hardware_Revenue = hardware_revenue l,
               Recurring_Revenue = recurring_revenue l,
               Total_Revenue = total_revenue l,
               Total_Costs = total_costs l,
               Profit = profit l,
               Profit_Margin = pm,
               Cumulative_Revenue = cumulative_revenue l,
               ROI = r\<rparr>"
    by (simp only: calculate_projections_def l pm r and_then.simps)
  have "length (hardware_revenue l) = length years"
    by (simp add: D(2) len)
  moreover have "length units_sold = length years" by (simp add: len)
  ultimately show ?thesis
    unfolding eq
    using len_cr comprehension_range_D(1) [OF pm] comprehension_range_D(1) [OF r]
    by (simp add: pd_DataFrame_def D(5-9))
qed

lemma calculate_projections_IndexError:
  assumes "length units_sold < length years"
  shows "calculate_projections years units_sold hardware_price hardware_cost
           subscription_fee subscription_cost initial_investment = Inl IndexError"
  using lines_IndexError [OF assms] by (simp add: calculate_projections_def)

lemma calculate_projections_errors:
  assumes le: "length years \<le> length units_sold"
    and e: "calculate_projections years units_sold hardware_price hardware_cost
           subscription_fee subscription_cost initial_investment = Inl e"
  shows "e = OverflowError \<or> (e = ZeroDivisionError \<and> initial_investment = 0 \<and> years \<noteq> [])
       \<or> (e = ValueError \<and> length years < length units_sold
            \<and> (initial_investment \<noteq> 0 \<or> years = []))"
proof -
  from lines_total [OF le] obtain l where
    l: "calculate_projections_lines_9_17 years units_sold hardware_price hardware_cost
             subscription_fee subscription_cost = Inr l" by blast
  note D = lines_D [OF l]
  have len_cr: "length (cumulative_revenue l) = length years"
    using D(4) D(6) by simp
  show ?thesis
  proof (cases "comprehension (profit_margin_at (total_revenue l) (profit l))
               [0..<length years]")
    case (Inl e')
    with e l have "e' = e" by (simp add: calculate_projections_def)
    from comprehension_Inl_D [OF Inl] obtain i where i: "i < length years"
      and "profit_margin_at (total_revenue l) (profit l) i = Inl e'" by auto
    with profit_margin_at_cases [of i "total_revenue l" "profit l"]
    have "e' = OverflowError" by (simp add: D(6) D(9))
    with \<open>e' = e\<close> show ?thesis by simp
  next
    case pm: (Inr pm)
    show ?thesis
    proof (cases "comprehension (roi_at (cumulative_revenue l) initial_investment)
               [0..<length years]")
      case (Inl e')
      with e l pm have "e' = e" by (simp add: calculate_projections_def)
      from comprehension_Inl_D [OF Inl] obtain i where i: "i < length years"
        and ri: "roi_at (cumulative_revenue l) initial_investment i = Inl e'" by auto
      show ?thesis
      proof (cases "initial_investment = 0")
        case True
        with ri i roi_at_zero [of i "cumulative_revenue l"]
        have "e' = ZeroDivisionError" by (simp add: len_cr)
        with \<open>e' = e\<close> True i show ?thesis by auto
      next
        case False
        with roi_at_cases [of i "cumulative_revenue l" initial_investment] ri i
        have "e' = OverflowError" by (simp add: len_cr)
        with \<open>e' = e\<close> show ?thesis by simp
      qed
    next
      case r: (Inr r)
      from e l pm r have "pd_DataFrame \<lparr>Year = years, Units_Sold = units_sold,
               Hardware_Revenue = hardware_revenue l,
               Recurring_Revenue = recurring_revenue l,
               Total_Revenue = total_revenue l,
               Total_Costs = total_costs l,
               Profit = profit l,
               Profit_Margin = pm,
               Cumulative_Revenue = cumulative_revenue l,
               ROI = r\<rparr> = Inl e"
        by (simp add: calculate_projections_def)
      then have "e = ValueError \<and> length years \<noteq> length units_sold"
        using comprehension_range_D(1) [OF pm] comprehension_range_D(1) [OF r] len_cr
        by (auto simp: pd_DataFrame_def Let_def D(2) D(5-9) split: if_splits)
      moreover have "initial_investment \<noteq> 0 \<or> years = []"
      proof (cases years)
        case Nil
        then show ?thesis by simp
      next
        case (Cons y ys)
        then have "0 < length years" by simp
        from comprehension_range_D(2) [OF r this]
        have "roi_at (cumulative_revenue l) initial_investment 0 = Inr (r ! 0)" .
        then have "initial_investment \<noteq> 0" by (rule roi_at_D(2))
        then show ?thesis by (rule disjI1)
      qed
      ultimately have "e = ValueError \<and> length years < length units_sold
            \<and> (initial_investment \<noteq> 0 \<or> years = [])" using le by linarith
      then show ?thesis by (intro disjI2)
    qed
  qed
qed

lemma calculate_projections_zero_investment:
  assumes le: "length years \<le> length units_sold" and ne: "years \<noteq> []"
  shows "calculate_projections years units_sold hardware_price hardware_cost
           subscription_fee subscription_cost 0 = Inl ZeroDivisionError
       \<or> calculate_projections years units_sold hardware_price hardware_cost
           subscription_fee subscription_cost 0 = Inl OverflowError"
proof (cases "calculate_projections years units_sold hardware_price hardware_cost
           subscription_fee subscription_cost 0")
  case (Inl e)
  from calculate_projections_errors [OF le Inl]
  have "e = OverflowError \<or> (e = ZeroDivisionError \<and> (0::int) = 0 \<and> years \<noteq> [])
       \<or> (e = ValueError \<and> length years < length units_sold
            \<and> ((0::int) \<noteq> 0 \<or> years = []))" .
  with ne have "e = OverflowError \<or> e = ZeroDivisionError" by simp
  with Inl show ?thesis by auto
next
  case (Inr df)
  from calculate_projections_lines [OF Inr] obtain l where
    l: "calculate_projections_lines_9_17 years units_sold hardware_price hardware_cost
             subscription_fee subscription_cost = Inr l" ..
  from ne have "0 < length years" by simp
  then have "roi_at (cumulative_revenue l) 0 0 = Inr (ROI df ! 0)"
    by (rule calculate_projections_D(13) [OF Inr l])
  from roi_at_D(2) [OF this] show ?thesis by simp
qed

subsection \<open>Bounded inputs never overflow\<close>

lemma abs_mult_le:
  fixes x y :: int
  assumes "\<bar>x\<bar> \<le> a" and "\<bar>y\<bar> \<le> b"
  shows "\<bar>x * y\<bar> \<le> a * b"
proof -
  have "\<bar>x\<bar> * \<bar>y\<bar> \<le> a * b"
    using assms by (intro mult_mono) simp_all
  then show ?thesis by (simp add: abs_mult)
qed

lemma abs_sum_list_le:
  fixes xs :: "int list"
  assumes "\<And>x. x \<in> set xs \<Longrightarrow> \<bar>x\<bar> \<le> b"
  shows "\<bar>sum_list xs\<bar> \<le> int (length xs) * b"
  using assms
proof (induction xs)
  case Nil
  then show ?case by simp
next
  case (Cons x xs)
  then have "\<bar>x\<bar> \<le> b" and "\<bar>sum_list xs\<bar> \<le> int (length xs) * b" by simp_all
  then have "\<bar>x + sum_list xs\<bar> \<le> b + int (length xs) * b" by linarith
  then show ?case by (simp add: algebra_simps)
qed

lemma abs_sum_list_take_le:
  fixes xs :: "int list"
  assumes "\<And>j. j \<le> i \<Longrightarrow> \<bar>xs ! j\<bar> \<le> t" and "i < length xs" and "int (length xs) \<le> b"
    and "0 \<le> t"
  shows "\<bar>sum_list (take (i + 1) xs)\<bar> \<le> b * t"
proof -
  have "\<bar>x\<bar> \<le> t" if "x \<in> set (take (i + 1) xs)" for x
  proof -
    from that obtain j where "j < length (take (i + 1) xs)" and "x = take (i + 1) xs ! j"
      by (auto simp: in_set_conv_nth)
    with assms(2) have "j \<le> i" and "x = xs ! j" by simp_all
    with assms(1) show ?thesis by simp
  qed
  then have "\<bar>sum_list (take (i + 1) xs)\<bar> \<le> int (length (take (i + 1) xs)) * t"
    by (rule abs_sum_list_le)
  also have "\<dots> \<le> b * t"
    using assms(2-4) by (intro mult_right_mono) simp_all
  finally show ?thesis .
qed

lemma lines_magnitudes:
  assumes l: "calculate_projections_lines_9_17 years units_sold hardware_price hardware_cost
             subscription_fee subscription_cost = Inr l"
    and i: "i < length years"
    and n: "int (length years) \<le> b"
    and us: "list_all (\<lambda>u. \<bar>u\<bar> \<le> b) units_sold"
    and hp: "\<bar>hardware_price\<bar> \<le> b" and hc: "\<bar>hardware_cost\<bar> \<le> b"
    and sf: "\<bar>subscription_fee\<bar> \<le> b" and sc: "\<bar>subscription_cost\<bar> \<le> b"
  shows "\<bar>total_revenue l ! i\<bar> \<le> b * b + b * b * b"
    and "\<bar>total_costs l ! i\<bar> \<le> b * b + b * b * b"
proof -
  from n have b0: "0 \<le> b" by linarith
  note iu = lines_nth(1) [OF l i]
  from us iu have u: "\<bar>units_sold ! i\<bar> \<le> b" by (simp add: list_all_length)
  have "\<bar>x\<bar> \<le> b" if "x \<in> set (take (i + 1) units_sold)" for x
  proof -
    from that have "x \<in> set units_sold" by (rule in_set_takeD)
    with us show ?thesis by (simp add: list_all_iff)
  qed
  then have "\<bar>sum_list (take (i + 1) units_sold)\<bar>
      \<le> int (length (take (i + 1) units_sold)) * b"
    by (rule abs_sum_list_le)
  also have "\<dots> \<le> b * b"
    using i iu n b0 by (intro mult_right_mono) simp_all
  finally have base: "\<bar>total_units_in_market l ! i\<bar> \<le> b * b"
    by (simp only: lines_nth(2) [OF l i])
  have hr: "\<bar>hardware_revenue l ! i\<bar> \<le> b * b"
    unfolding lines_nth(3) [OF l i] using u hp by (rule abs_mult_le)
  have rr: "\<bar>recurring_revenue l ! i\<bar> \<le> b * b * b"
    unfolding lines_D(11) [OF l i] using base sf by (rule abs_mult_le)
  from hr rr show "\<bar>total_revenue l ! i\<bar> \<le> b * b + b * b * b"
    unfolding lines_D(12) [OF l i] by linarith
  have hcs: "\<bar>hardware_costs l ! i\<bar> \<le> b * b"
    unfolding lines_nth(4) [OF l i] using u hc by (rule abs_mult_le)
  have rc: "\<bar>recurring_costs l ! i\<bar> \<le> b * b * b"
    unfolding lines_D(13) [OF l i] using base sc by (rule abs_mult_le)
  from hcs rc show "\<bar>total_costs l ! i\<bar> \<le> b * b + b * b * b"
    unfolding lines_D(14) [OF l i] by linarith
qed

lemma bounded_input_small:
  assumes bd: "bounded_input years units_sold hardware_price hardware_cost
             subscription_fee subscription_cost initial_investment"
    and l: "calculate_projections_lines_9_17 years units_sold hardware_price hardware_cost
             subscription_fee subscription_cost = Inr l"
    and i: "i < length years"
  shows "\<bar>profit l ! i\<bar> < 2 ^ 1023
       \<and> \<bar>cumulative_revenue l ! i - initial_investment\<bar> < 2 ^ 1023"
proof -
  define b :: int where "b = 2 ^ 53"
  define t where "t = b * b + b * b * b"
  from bd have n: "int (length years) \<le> b"
    and us: "list_all (\<lambda>u. \<bar>u\<bar> \<le> b) units_sold"
    and hp: "\<bar>hardware_price\<bar> \<le> b" and hc: "\<bar>hardware_cost\<bar> \<le> b"
    and sf: "\<bar>subscription_fee\<bar> \<le> b" and sc: "\<bar>subscription_cost\<bar> \<le> b"
    and inv: "\<bar>initial_investment\<bar> \<le> b"
    unfolding bounded_input_def b_def by simp_all
  have t0: "0 \<le> t" by (simp add: t_def b_def)
  have tr: "\<bar>total_revenue l ! j\<bar> \<le> t" if "j < length years" for j
    unfolding t_def by (rule lines_magnitudes(1) [OF l that n us hp hc sf sc])
  have tc: "\<bar>total_costs l ! i\<bar> \<le> t"
    unfolding t_def by (rule lines_magnitudes(2) [OF l i n us hp hc sf sc])
  from tr [OF i] tc have "\<bar>profit l ! i\<bar> \<le> t + t"
    unfolding lines_D(15) [OF l i] by linarith
  also have "t + t < 2 ^ 1023" by (simp add: t_def b_def)
  finally have p: "\<bar>profit l ! i\<bar> < 2 ^ 1023" .
  have len: "length (total_revenue l) = length years" by (rule lines_D(6) [OF l])
  have "\<bar>sum_list (take (i + 1) (total_revenue l))\<bar> \<le> b * t"
  proof (rule abs_sum_list_take_le)
    fix j assume "j \<le> i"
    with i have "j < length years" by simp
    then show "\<bar>total_revenue l ! j\<bar> \<le> t" by (rule tr)
  next
    from i show "i < length (total_revenue l)" by (simp add: len)
  next
    from n show "int (length (total_revenue l)) \<le> b" by (simp add: len)
  next
    show "0 \<le> t" by (rule t0)
  qed
  then have "\<bar>cumulative_revenue l ! i\<bar> \<le> b * t"
    by (simp only: lines_nth(5) [OF l i])
  with inv have "\<bar>cumulative_revenue l ! i - initial_investment\<bar> \<le> b * t + b"
    by linarith
  also have "b * t + b < 2 ^ 1023" by (simp add: t_def b_def)
  finally show ?thesis using p by simp
qed

lemma profit_margins_total:
  assumes l: "calculate_projections_lines_9_17 years units_sold hardware_price hardware_cost
             subscription_fee subscription_cost = Inr l"
    and small: "\<And>i. i < length years \<Longrightarrow> \<bar>profit l ! i\<bar> < 2 ^ 1023"
  shows "\<exists>pm. comprehension (profit_margin_at (total_revenue l) (profit l))
               [0..<length years] = Inr pm"
proof (rule comprehension_range_total)
  fix i assume "i < length years"
  with small [of i] show "\<exists>v. profit_margin_at (total_revenue l) (profit l) i = Inr v"
    by (intro profit_margin_at_total) (simp_all add: lines_D(6) [OF l] lines_D(9) [OF l])
qed

lemma calculate_projections_ValueError:
  assumes less: "length years < length units_sold"
    and bd: "bounded_input years units_sold hardware_price hardware_cost
             subscription_fee subscription_cost initial_investment"
    and inv: "initial_investment \<noteq> 0 \<or> years = []"
  shows "calculate_projections years units_sold hardware_price hardware_cost
             subscription_fee subscription_cost initial_investment = Inl ValueError"
proof -
  from less have "length years \<le> length units_sold" by simp
  from lines_total [OF this] obtain l where
    l: "calculate_projections_lines_9_17 years units_sold hardware_price hardware_cost
             subscription_fee subscription_cost = Inr l" by blast
  note small = bounded_input_small [OF bd l]
  have len_cr: "length (cumulative_revenue l) = length years"
    using lines_D(4) [OF l] lines_D(6) [OF l] by simp
  from profit_margins_total [OF l] small obtain pm where
    pm: "comprehension (profit_margin_at (total_revenue l) (profit l))
               [0..<length years] = Inr pm" by blast
  have "\<exists>r. comprehension (roi_at (cumulative_revenue l) initial_investment)
               [0..<length years] = Inr r"
  proof (rule comprehension_range_total)
    fix i assume i: "i < length years"
    with inv have "initial_investment \<noteq> 0" by auto
    with small [OF i] i show "\<exists>v. roi_at (cumulative_revenue l) initial_investment i = Inr v"
      by (intro roi_at_total) (simp_all add: len_cr)
  qed
  then obtain r where r: "comprehension (roi_at (cumulative_revenue l) initial_investment)
               [0..<length years] = Inr r" ..
  have eq: "calculate_projections years units_sold hardware_price hardware_cost
             subscription_fee subscription_cost initial_investment =
      pd_DataFrame \<lparr>Year = years, Units_Sold = units_sold,
               Hardware_Revenue = hardware_revenue l,
               Recurring_Revenue = recurring_revenue l,
               Total_Revenue = total_revenue l,
               Total_Costs = total_costs l,
               Profit = profit l,
               Profit_Margin = pm,
               Cumulative_Revenue = cumulative_revenue l,
               ROI = r\<rparr>"
    by (simp only: calculate_projections_def l pm r and_then.simps)
  from less have "length units_sold \<noteq> length years" by simp
  then show ?thesis unfolding eq by (simp add: pd_DataFrame_def)
qed

lemma bounded_returns:
  assumes len: "length years = length units_sold"
    and bd: "bounded_input years units_sold hardware_price hardware_cost
             subscription_fee subscription_cost initial_investment"
    and inv: "initial_investment \<noteq> 0 \<or> years = []"
  shows "\<exists>df. calculate_projections years units_sold hardware_price hardware_cost
             subscription_fee subscription_cost initial_investment = Inr df"
proof -
  from len have "length years \<le> length units_sold" by simp
  from lines_total [OF this] obtain l where
    l: "calculate_projections_lines_9_17 years units_sold hardware_price hardware_cost
             subscription_fee subscription_cost = Inr l" by blast
  show ?thesis
    by (rule calculate_projections_returns [OF l len inv]) (rule bounded_input_small [OF bd l])
qed

lemma valid_bounded_returns:
  assumes "valid_input years units_sold hardware_price hardware_cost
             subscription_fee subscription_cost initial_investment"
    and "bounded_input years units_sold hardware_price hardware_cost
             subscription_fee subscription_cost initial_investment"
  shows "\<exists>df. calculate_projections years units_sold hardware_price hardware_cost
             subscription_fee subscription_cost initial_investment = Inr df"
proof (rule bounded_returns)
  from assms(1) show "length years = length units_sold" by (simp add: valid_input_def)
  from assms(1) show "initial_investment \<noteq> 0 \<or> years = []" by (simp add: valid_input_def)
qed (rule assms(2))

lemma valid_input_lines:
  assumes "valid_input years units_sold hardware_price hardware_cost
             subscription_fee subscription_cost initial_investment"
  shows "\<exists>l. calculate_projections_lines_9_17 years units_sold hardware_price hardware_cost
             subscription_fee subscription_cost = Inr l"
proof (rule lines_total)
  from assms show "length years \<le> length units_sold" by (simp add: valid_input_def)
qed

lemma zero_investment_bounded:
  assumes le: "length years \<le> length units_sold" and ne: "years \<noteq> []"
    and bd: "bounded_input years units_sold hardware_price hardware_cost
             subscription_fee subscription_cost 0"
  shows "calculate_projections years units_sold hardware_price hardware_cost
           subscription_fee subscription_cost 0 = Inl ZeroDivisionError"
proof -
  from lines_total [OF le] obtain l where
    l: "calculate_projections_lines_9_17 years units_sold hardware_price hardware_cost
             subscription_fee subscription_cost = Inr l" by blast
  note small = bounded_input_small [OF bd l]
  have len_cr: "length (cumulative_revenue l) = length years"
    using lines_D(4) [OF l] lines_D(6) [OF l] by simp
  from profit_margins_total [OF l] small obtain pm where
    pm: "comprehension (profit_margin_at (total_revenue l) (profit l))
               [0..<length years] = Inr pm" by blast
  from ne have pos: "0 < length years" by simp
  have "comprehension (roi_at (cumulative_revenue l) 0) [0..<length years]
        = Inl ZeroDivisionError"
    by (rule comprehension_range_raises [OF pos]) (use pos in \<open>simp_all add: roi_at_zero len_cr\<close>)
  then show ?thesis
    by (simp only: calculate_projections_def l pm and_then.simps)
qed

section \<open>The claims\<close>

lemma sum_list_take_Suc:
  "i < length xs \<Longrightarrow> sum_list (take (Suc i) xs) = sum_list (take i xs) + (xs ! i :: int)"
  by (simp add: take_Suc_conv_app_nth)

lemma sum_list_take_nonneg:
  assumes "list_all (\<lambda>u. 0 \<le> u) xs"
  shows "0 \<le> sum_list (take n xs :: int list)"
proof (rule sum_list_nonneg)
  fix x assume "x \<in> set (take n xs)"
  then have "x \<in> set xs" by (rule in_set_takeD)
  with assms show "0 \<le> x" by (simp add: list_all_iff)
qed

lemma total_revenue_nonneg:
  assumes "valid_input years units_sold hardware_price hardware_cost
             subscription_fee subscription_cost initial_investment"
    and l: "calculate_projections_lines_9_17 years units_sold hardware_price hardware_cost
             subscription_fee subscription_cost = Inr l"
    and i: "i < length years"
  shows "0 \<le> total_revenue l ! i"
proof -
  from assms(1) have nn: "list_all (\<lambda>u. 0 \<le> u) units_sold"
    and hp: "0 \<le> hardware_price" and sf: "0 \<le> subscription_fee"
    by (simp_all add: valid_input_def)
  from lines_nth(1) [OF l i] nn have "0 \<le> units_sold ! i"
    by (simp add: list_all_length)
  with hp have "0 \<le> units_sold ! i * hardware_price" by simp
  moreover from sum_list_take_nonneg [OF nn] sf
  have "0 \<le> sum_list (take (i + 1) units_sold) * subscription_fee" by simp
  ultimately show ?thesis
    by (simp add: lines_D(12) [OF l i] lines_D(11) [OF l i]
          lines_nth(2) [OF l i] lines_nth(3) [OF l i])
qed

text \<open>
  C1. On every valid input lines 9 to 17 complete, and in every year \<open>i\<close> the recurring
  revenue is the subscription fee times the sum of \<open>units_sold[0..i]\<close>, and the recurring
  cost is the subscription cost times that same sum: both accrue on all units sold so
  far. The recurring revenue column of any table the call returns is that list, and the
  call does return a table when the input is also of bounded magnitude.
\<close>

theorem recurring_on_installed_base:
  assumes "valid_input years units_sold hardware_price hardware_cost
             subscription_fee subscription_cost initial_investment"
  shows "\<exists>l.
     calculate_projections_lines_9_17 years units_sold hardware_price hardware_cost
       subscription_fee subscription_cost = Inr l
     \<and> (\<forall>i<length years.
           recurring_revenue l ! i = sum_list (take (i + 1) units_sold) * subscription_fee
         \<and> recurring_costs l ! i = sum_list (take (i + 1) units_sold) * subscription_cost)
     \<and> (\<forall>df. calculate_projections years units_sold hardware_price hardware_cost
               subscription_fee subscription_cost initial_investment = Inr df \<longrightarrow>
             Recurring_Revenue df = recurring_revenue l)
     \<and> (bounded_input years units_sold hardware_price hardware_cost
               subscription_fee subscription_cost initial_investment \<longrightarrow>
          (\<exists>df. calculate_projections years units_sold hardware_price hardware_cost
               subscription_fee subscription_cost initial_investment = Inr df))"
proof -
  from valid_input_lines [OF assms] obtain l where
    l: "calculate_projections_lines_9_17 years units_sold hardware_price hardware_cost
       subscription_fee subscription_cost = Inr l" ..
  have "recurring_revenue l ! i = sum_list (take (i + 1) units_sold) * subscription_fee
      \<and> recurring_costs l ! i = sum_list (take (i + 1) units_sold) * subscription_cost"
    if "i < length years" for i
    using lines_D(11) [OF l that] lines_D(13) [OF l that] lines_nth(2) [OF l that]
    by simp
  moreover have "Recurring_Revenue df = recurring_revenue l"
    if "calculate_projections years units_sold hardware_price hardware_cost
               subscription_fee subscription_cost initial_investment = Inr df" for df
    by (rule calculate_projections_D(5) [OF that l])
  moreover have "\<exists>df. calculate_projections years units_sold hardware_price hardware_cost
               subscription_fee subscription_cost initial_investment = Inr df"
    if "bounded_input years units_sold hardware_price hardware_cost
               subscription_fee subscription_cost initial_investment"
    using assms that by (rule valid_bounded_returns)
  ultimately show ?thesis using l by blast
qed

theorem recurring_on_installed_base_witness:
  "valid_input [1, 2, 3] [100, 50, 25] 15000 11000 2000 500 6000000
   \<and> bounded_input [1, 2, 3] [100, 50, 25] 15000 11000 2000 500 6000000
   \<and> (\<exists>l df.
     calculate_projections_lines_9_17 [1, 2, 3] [100, 50, 25] 15000 11000 2000 500 = Inr l
     \<and> calculate_projections [1, 2, 3] [100, 50, 25] 15000 11000 2000 500 6000000 = Inr df
     \<and> Recurring_Revenue df = recurring_revenue l
     \<and> recurring_revenue l ! 1 = 300000 \<and> recurring_costs l ! 1 = 75000)"
proof -
  have v: "valid_input [1, 2, 3] [100, 50, 25] 15000 11000 2000 500 6000000"
    by (simp add: valid_input_def)
  have b: "bounded_input [1, 2, 3] [100, 50, 25] 15000 11000 2000 500 6000000"
    by (simp add: bounded_input_def)
  from recurring_on_installed_base [OF v] b obtain l df where
    l: "calculate_projections_lines_9_17 [1, 2, 3] [100, 50, 25] 15000 11000 2000 500 = Inr l"
    and all: "\<forall>i<length [1, 2, 3 :: int].
           recurring_revenue l ! i = sum_list (take (i + 1) [100, 50, 25]) * 2000
         \<and> recurring_costs l ! i = sum_list (take (i + 1) [100, 50, 25]) * 500"
    and col: "\<forall>df. calculate_projections [1, 2, 3] [100, 50, 25] 15000 11000 2000 500 6000000
                 = Inr df \<longrightarrow> Recurring_Revenue df = recurring_revenue l"
    and df: "calculate_projections [1, 2, 3] [100, 50, 25] 15000 11000 2000 500 6000000 = Inr df"
    by blast
  from all [rule_format, of 1]
  have "recurring_revenue l ! 1 = 300000 \<and> recurring_costs l ! 1 = 75000" by simp
  moreover from col df have "Recurring_Revenue df = recurring_revenue l" by blast
  ultimately show ?thesis using v b l df by blast
qed

text \<open>
  C6. On every valid input lines 9 to 17 complete, and the cumulative revenue of every
  year \<open>i\<close> is the sum of the total revenues of years 0 to \<open>i\<close>; in the last year it is
  the sum of the whole total revenue list; and it satisfies the running accumulator
  equations: in year 0 it is the total revenue of year 0, and in every later year it is
  the cumulative revenue of the year before plus the total revenue of the year. The two
  columns of any table the call returns are these lists, and the call does return a
  table when the input is also of bounded magnitude.
\<close>

theorem cumulative_revenue_prefix_sum:
  assumes "valid_input years units_sold hardware_price hardware_cost
             subscription_fee subscription_cost initial_investment"
  shows "\<exists>l.
     calculate_projections_lines_9_17 years units_sold hardware_price hardware_cost
       subscription_fee subscription_cost = Inr l
     \<and> (\<forall>i<length years.
           cumulative_revenue l ! i = sum_list (take (i + 1) (total_revenue l)))
     \<and> cumulative_revenue l ! (length years - 1) = sum_list (total_revenue l)
     \<and> cumulative_revenue l ! 0 = total_revenue l ! 0
     \<and> (\<forall>i<length years. 1 \<le> i \<longrightarrow>
           cumulative_revenue l ! i = cumulative_revenue l ! (i - 1) + total_revenue l ! i)
     \<and> (\<forall>df. calculate_projections years units_sold hardware_price hardware_cost
               subscription_fee subscription_cost initial_investment = Inr df \<longrightarrow>
             Cumulative_Revenue df = cumulative_revenue l
             \<and> Total_Revenue df = total_revenue l)
     \<and> (bounded_input years units_sold hardware_price hardware_cost
               subscription_fee subscription_cost initial_investment \<longrightarrow>
          (\<exists>df. calculate_projections years units_sold hardware_price hardware_cost
               subscription_fee subscription_cost initial_investment = Inr df))"
proof -
  from valid_input_lines [OF assms] obtain l where
    l: "calculate_projections_lines_9_17 years units_sold hardware_price hardware_cost
       subscription_fee subscription_cost = Inr l" ..
  from assms have "1 \<le> length years" unfolding valid_input_def by (elim conjE)
  then have pos: "0 < length years" by linarith
  have len: "length (total_revenue l) = length years" by (rule lines_D(6) [OF l])
  have prefix: "cumulative_revenue l ! i = sum_list (take (i + 1) (total_revenue l))"
    if "i < length years" for i
    by (rule lines_nth(5) [OF l that])
  have last: "cumulative_revenue l ! (length years - 1) = sum_list (total_revenue l)"
    using prefix [of "length years - 1"] pos len by simp
  have first: "cumulative_revenue l ! 0 = total_revenue l ! 0"
    using prefix [OF pos] pos len by (simp add: take_Suc_conv_app_nth)
  have step: "cumulative_revenue l ! i = cumulative_revenue l ! (i - 1) + total_revenue l ! i"
    if "i < length years" and "1 \<le> i" for i
  proof -
    from that obtain j where j: "i = Suc j" by (cases i) simp_all
    with that(1) have "j < length years" by simp
    from prefix [OF this] prefix [OF that(1)] that(1) len show ?thesis
      by (simp add: j sum_list_take_Suc)
  qed
  have cols: "Cumulative_Revenue df = cumulative_revenue l \<and> Total_Revenue df = total_revenue l"
    if "calculate_projections years units_sold hardware_price hardware_cost
               subscription_fee subscription_cost initial_investment = Inr df" for df
    using calculate_projections_D(9) [OF that l] calculate_projections_D(6) [OF that l] ..
  have ret: "\<exists>df. calculate_projections years units_sold hardware_price hardware_cost
               subscription_fee subscription_cost initial_investment = Inr df"
    if "bounded_input years units_sold hardware_price hardware_cost
               subscription_fee subscription_cost initial_investment"
    using assms that by (rule valid_bounded_returns)
  from prefix last first step cols ret l show ?thesis by blast
qed

theorem cumulative_revenue_prefix_sum_witness:
  "valid_input [1, 2, 3] [100, 50, 25] 15000 11000 2000 500 6000000
   \<and> bounded_input [1, 2, 3] [100, 50, 25] 15000 11000 2000 500 6000000
   \<and> (\<exists>l df.
        calculate_projections_lines_9_17 [1, 2, 3] [100, 50, 25] 15000 11000 2000 500 = Inr l
        \<and> calculate_projections [1, 2, 3] [100, 50, 25] 15000 11000 2000 500 6000000 = Inr df
        \<and> Total_Revenue df = [1700000, 1050000, 725000]
        \<and> Cumulative_Revenue df ! 2 = 3475000
        \<and> Cumulative_Revenue df ! 2 = Cumulative_Revenue df ! 1 + 725000)"
proof -
  have v: "valid_input [1, 2, 3] [100, 50, 25] 15000 11000 2000 500 6000000"
    by (simp add: valid_input_def)
  have b: "bounded_input [1, 2, 3] [100, 50, 25] 15000 11000 2000 500 6000000"
    by (simp add: bounded_input_def)
  from cumulative_revenue_prefix_sum [OF v] b obtain l df where
    l: "calculate_projections_lines_9_17 [1, 2, 3] [100, 50, 25] 15000 11000 2000 500 = Inr l"
    and last: "cumulative_revenue l ! (length [1, 2, 3 :: int] - 1) = sum_list (total_revenue l)"
    and step: "\<forall>i<length [1, 2, 3 :: int]. 1 \<le> i \<longrightarrow>
           cumulative_revenue l ! i = cumulative_revenue l ! (i - 1) + total_revenue l ! i"
    and cols: "\<forall>df. calculate_projections [1, 2, 3] [100, 50, 25] 15000 11000 2000 500 6000000
                 = Inr df \<longrightarrow>
             Cumulative_Revenue df = cumulative_revenue l
             \<and> Total_Revenue df = total_revenue l"
    and df: "calculate_projections [1, 2, 3] [100, 50, 25] 15000 11000 2000 500 6000000 = Inr df"
    by blast
  have "calculate_projections_lines_9_17 [1, 2, 3] [100, 50, 25] 15000 11000 2000 500 =
      Inr \<lparr>total_units_in_market = [100, 150, 175],
        hardware_revenue = [1500000, 750000, 375000],
        recurring_revenue = [200000, 300000, 350000],
        total_revenue = [1700000, 1050000, 725000],
        cumulative_revenue = [1700000, 2750000, 3475000],
        hardware_costs = [1100000, 550000, 275000],
        recurring_costs = [50000, 75000, 87500],
        total_costs = [1150000, 625000, 362500],
        profit = [550000, 425000, 362500]\<rparr>"
    by code_simp
  with l have tr: "total_revenue l = [1700000, 1050000, 725000]" by auto
  from cols df have c: "Cumulative_Revenue df = cumulative_revenue l"
    and t: "Total_Revenue df = total_revenue l" by blast+
  have "length [1, 2, 3 :: int] - 1 = 2" by simp
  with last have "cumulative_revenue l ! 2 = sum_list (total_revenue l)" by (simp only:)
  then have "Cumulative_Revenue df ! 2 = 3475000" by (simp add: tr c)
  moreover from step [rule_format, of 2]
  have "Cumulative_Revenue df ! 2 = Cumulative_Revenue df ! 1 + 725000" by (simp add: tr c)
  moreover from t tr have "Total_Revenue df = [1700000, 1050000, 725000]" by simp
  ultimately show ?thesis using v b l df by blast
qed

end
